theory Spec2Isabelle
  imports Main "HOL-Library.Word"
begin

unbundle bit_operations_syntax

section \<open>Data model of the CPU and of its bus (src/src/cpu.cpp)\<close>

type_synonym u8 = "8 word"
type_synonym u16 = "16 word"

text \<open>
  The CPU cycle chart, \<^verbatim>\<open>static const uint8_t cycles[256]\<close>, row by row as in the source.
\<close>

definition cycles :: "u8 list" where
  "cycles =
   [7,6,0,8,3,3,5,5,3,2,2,2,4,4,6,6,
    2,5,0,8,4,4,6,6,2,4,2,7,4,4,7,7,
    6,6,0,8,3,3,5,5,4,2,2,2,4,4,6,6,
    2,5,0,8,4,4,6,6,2,4,2,7,4,4,7,7,
    6,6,0,8,3,3,5,5,3,2,2,2,3,4,6,6,
    2,5,0,8,4,4,6,6,2,4,2,7,4,4,7,7,
    6,6,0,8,3,3,5,5,4,2,2,2,5,4,6,6,
    2,5,0,8,4,4,6,6,2,4,2,7,4,4,7,7,
    2,6,2,6,3,3,3,3,2,2,2,2,4,4,4,4,
    2,6,0,6,4,4,4,4,2,5,2,5,5,5,5,5,
    2,6,2,6,3,3,3,3,2,2,2,2,4,4,4,4,
    2,5,0,5,4,4,4,4,2,4,2,4,4,4,4,4,
    2,6,2,8,3,3,5,5,2,2,2,2,4,4,6,6,
    2,5,0,8,4,4,6,6,2,4,2,7,4,4,7,7,
    2,6,2,8,3,3,5,5,2,2,2,2,4,4,6,6,
    2,5,0,8,4,4,6,6,2,4,2,7,4,4,7,7]"

text \<open>
  The state of a \<^verbatim>\<open>CPU\<close> object. \<^verbatim>\<open>memory\<close> is the 0x800-cell work RAM
  (\<^verbatim>\<open>memory.size()\<close> is 0x800, see \<^verbatim>\<open>CPU_state\<close>); it is a function of the cell
  index, and every index the code computes is below 0x800 (lemmas \<open>ram_index_bound\<close>
  and \<open>stack_index_bound\<close>). The registers have the widths of their copies in
  \<^verbatim>\<open>CPU_state\<close>; \<^verbatim>\<open>result_cycle\<close> is a counter that is cleared after every
  instruction. \<^verbatim>\<open>do_NMI\<close> is the file-level flag of cpu.cpp, \<^verbatim>\<open>cpu_done\<close> stands
  for the member \<^verbatim>\<open>_done\<close>. Everything the CPU reaches through
  its pointers \<^verbatim>\<open>bus\<close>, \<^verbatim>\<open>apu\<close>, \<^verbatim>\<open>ppu\<close>, \<^verbatim>\<open>rom\<close> and \<^verbatim>\<open>controller[2]\<close> is the
  component \<^verbatim>\<open>world\<close>: these objects hold pointers to one another, so they share one
  state.
\<close>

record 'w cpu =
  memory :: "nat \<Rightarrow> u8"
  P :: u8
  A :: u8
  X :: u8
  Y :: u8
  SP :: u8
  PC :: u16
  last_PC :: u16
  last_op :: u8
  result_cycle :: nat
  IRQ :: bool
  cpu_done :: bool
  do_NMI :: bool
  world :: 'w

text \<open>
  The calls a device can make back into the CPU through its public interface
  (\<^verbatim>\<open>CPU::pull_NMI\<close>, \<^verbatim>\<open>CPU::pull_IRQ\<close>, \<^verbatim>\<open>CPU::release_IRQ\<close>, \<^verbatim>\<open>CPU::stop\<close>).
\<close>

datatype cpu_call = Pull_NMI | Pull_IRQ | Release_IRQ | Stop

text \<open>
  The code behind the interfaces of include/bus.h (\<^verbatim>\<open>IPPU\<close>, \<^verbatim>\<open>IAPU\<close>, \<^verbatim>\<open>IROM\<close>,
  \<^verbatim>\<open>IController\<close>, \<^verbatim>\<open>IBus\<close>) and the declarations of cpu.h are not part of
  cpu.cpp. They are parameters of the model: every virtual call is a field of the
  environment, acting on \<^verbatim>\<open>world\<close>; a call that returns a byte returns it with the
  new \<^verbatim>\<open>world\<close>. \<^verbatim>\<open>ctl_read i\<close> and \<^verbatim>\<open>ctl_strobe i\<close> are \<^verbatim>\<open>controller[i]->read()\<close>
  and \<^verbatim>\<open>controller[i]->strobe()\<close>. \<^verbatim>\<open>on_cpu_tick\<close> returns the calls the bus makes back
  into the CPU during the tick; the register and cartridge accesses do not call back.
  \<^verbatim>\<open>ops\<close> is the dispatch table of opcode handlers, each a function of the whole
  CPU state, and \<^verbatim>\<open>ProcStatus\<close> the member function whose result
  \<^verbatim>\<open>stack_push<&CPU::ProcStatus>()\<close> pushes.
\<close>

record 'w env =
  regw_control :: "u8 \<Rightarrow> 'w \<Rightarrow> 'w"
  regw_mask :: "u8 \<Rightarrow> 'w \<Rightarrow> 'w"
  regw_OAM_address :: "u8 \<Rightarrow> 'w \<Rightarrow> 'w"
  regw_OAM_data :: "u8 \<Rightarrow> 'w \<Rightarrow> 'w"
  regw_scroll :: "u8 \<Rightarrow> 'w \<Rightarrow> 'w"
  regw_address :: "u8 \<Rightarrow> 'w \<Rightarrow> 'w"
  regw_data :: "u8 \<Rightarrow> 'w \<Rightarrow> 'w"
  regr_status :: "'w \<Rightarrow> u8 \<times> 'w"
  regr_OAM_data :: "'w \<Rightarrow> u8 \<times> 'w"
  regr_data :: "'w \<Rightarrow> u8 \<times> 'w"
  apu_read :: "'w \<Rightarrow> u8 \<times> 'w"
  apu_write :: "u8 \<Rightarrow> u8 \<Rightarrow> 'w \<Rightarrow> 'w"
  ctl_read :: "nat \<Rightarrow> 'w \<Rightarrow> u8 \<times> 'w"
  ctl_strobe :: "nat \<Rightarrow> 'w \<Rightarrow> 'w"
  read_prg :: "u16 \<Rightarrow> 'w \<Rightarrow> u8 \<times> 'w"
  write_prg :: "u8 \<Rightarrow> u16 \<Rightarrow> 'w \<Rightarrow> 'w"
  on_cpu_tick :: "'w \<Rightarrow> cpu_call list \<times> 'w"
  ops :: "u8 \<Rightarrow> 'w cpu \<Rightarrow> 'w cpu"
  ProcStatus :: "'w cpu \<Rightarrow> u8"

subsection \<open>The memory map: \<^verbatim>\<open>CPU::read\<close> and \<^verbatim>\<open>CPU::write\<close>\<close>

text \<open>A device call that returns a byte, and one that returns nothing.\<close>

definition dev_get :: "('w \<Rightarrow> u8 \<times> 'w) \<Rightarrow> 'w cpu \<Rightarrow> u8 \<times> 'w cpu" where
  "dev_get f s = (fst (f (world s)), s\<lparr>world := snd (f (world s))\<rparr>)"

definition dev_put :: "('w \<Rightarrow> 'w) \<Rightarrow> 'w cpu \<Rightarrow> 'w cpu" where
  "dev_put f s = s\<lparr>world := f (world s)\<rparr>"

definition read :: "'w env \<Rightarrow> u16 \<Rightarrow> 'w cpu \<Rightarrow> u8 \<times> 'w cpu" where
  "read E addr s =
     (if addr < 0x2000 then (memory s (unat (addr AND 0x7ff)), s)
      else if addr < 0x4000 then
        (if addr AND 7 = 2 then dev_get (regr_status E) s
         else if addr AND 7 = 4 then dev_get (regr_OAM_data E) s
         else if addr AND 7 = 7 then dev_get (regr_data E) s
         else (0, s))
      else if addr < 0x4020 then
        (if addr AND 0x1f = 0x15 then dev_get (apu_read E) s
         else if addr AND 0x1f = 0x16 then dev_get (ctl_read E 0) s
         else if addr AND 0x1f = 0x17 then dev_get (ctl_read E 1) s
         else (0, s))
      else dev_get (read_prg E addr) s)"

text \<open>
  The DMA loop of \<^verbatim>\<open>CPU::write\<close>:
  \<^verbatim>\<open>for(int i = 0; i < 256; ++i) ppu->regw_OAM_data(read((value & 7) * 0x100 + i));\<close>
  The address is computed in \<^verbatim>\<open>int\<close> and converted to \<^verbatim>\<open>uint16_t\<close> at the call.
\<close>

function dma_loop :: "'w env \<Rightarrow> u8 \<Rightarrow> nat \<Rightarrow> 'w cpu \<Rightarrow> 'w cpu" where
  "dma_loop E v i s =
     (if i < 256 then
        (let r = read E (of_nat (unat (v AND 7) * 0x100 + i)) s
         in dma_loop E v (i + 1) (dev_put (regw_OAM_data E (fst r)) (snd r)))
      else s)"
  by pat_completeness auto
termination
  by (relation "measure (\<lambda>(E, v, i, s). 256 - i)") auto

declare dma_loop.simps [simp del]

definition write' :: "'w env \<Rightarrow> u8 \<Rightarrow> u16 \<Rightarrow> 'w cpu \<Rightarrow> 'w cpu" where
  "write' E v addr s =
     (if addr < 0x2000 then s\<lparr>memory := (memory s)(unat (addr AND 0x7ff) := v)\<rparr>
      else if addr < 0x4000 then
        (if addr AND 7 = 0 then dev_put (regw_control E v) s
         else if addr AND 7 = 1 then dev_put (regw_mask E v) s
         else if addr AND 7 = 3 then dev_put (regw_OAM_address E v) s
         else if addr AND 7 = 4 then dev_put (regw_OAM_data E v) s
         else if addr AND 7 = 5 then dev_put (regw_scroll E v) s
         else if addr AND 7 = 6 then dev_put (regw_address E v) s
         else if addr AND 7 = 7 then dev_put (regw_data E v) s
         else s)
      else if addr < 0x4020 then
        (if addr AND 0x1f = 0x14 then dma_loop E v 0 s
         else if addr AND 0x1f = 0x16 then dev_put (ctl_strobe E (unat (v AND 1))) s
         else dev_put (apu_write E v (ucast (addr AND 0x1f))) s)
      else dev_put (write_prg E v addr) s)"

subsection \<open>The stack: \<^verbatim>\<open>push\<close>, \<^verbatim>\<open>push2\<close>, \<^verbatim>\<open>pull\<close>, \<^verbatim>\<open>pull2\<close>\<close>

text \<open>
  \<^verbatim>\<open>memory[0x100 + SP--] = x\<close>: the index is computed in \<^verbatim>\<open>int\<close> from the old
  \<^verbatim>\<open>SP\<close>; \<^verbatim>\<open>SP\<close> is a byte and wraps.
\<close>

definition push :: "u8 \<Rightarrow> 'w cpu \<Rightarrow> 'w cpu" where
  "push x s = s\<lparr>memory := (memory s)(0x100 + unat (SP s) := x), SP := SP s - 1\<rparr>"

definition push2 :: "u16 \<Rightarrow> 'w cpu \<Rightarrow> 'w cpu" where
  "push2 x s = push (ucast (x AND 0xff)) (push (ucast (drop_bit 8 x)) s)"

definition pull :: "'w cpu \<Rightarrow> u8 \<times> 'w cpu" where
  "pull s = (memory s (unat (SP s + 1) + 0x100), s\<lparr>SP := SP s + 1\<rparr>)"

definition pull2 :: "'w cpu \<Rightarrow> u16 \<times> 'w cpu" where
  "pull2 s =
     (let lo = pull s; hi = pull (snd lo)
      in (ucast (fst lo) OR push_bit 8 (ucast (fst hi)), snd hi))"

definition addcyc :: "'w cpu \<Rightarrow> 'w cpu" where
  "addcyc s = s\<lparr>result_cycle := result_cycle s + 1\<rparr>"

definition next' :: "'w env \<Rightarrow> 'w cpu \<Rightarrow> u8 \<times> 'w cpu" where
  "next' E s = read E (PC s) (s\<lparr>PC := PC s + 1\<rparr>)"

subsection \<open>Construction\<close>

text \<open>
  The constructor stores the device pointers and presets five cells of \<^verbatim>\<open>memory\<close>.
  The argument \<open>s0\<close> is the object as its member initialisers (cpu.h) leave it.
\<close>

definition CPU :: "'w \<Rightarrow> 'w cpu \<Rightarrow> 'w cpu" where
  "CPU w s0 =
     s0\<lparr>world := w,
        memory := (memory s0)(0x008 := 0xf7, 0x009 := 0xef, 0x00a := 0xdf,
                              0x00f := 0xbf, 0x1fc := 0x69)\<rparr>"

subsection \<open>Interrupt lines and the stop request\<close>

definition pull_NMI :: "'w cpu \<Rightarrow> 'w cpu" where
  "pull_NMI s = s\<lparr>do_NMI := True\<rparr>"

definition pull_IRQ :: "'w cpu \<Rightarrow> 'w cpu" where
  "pull_IRQ s = s\<lparr>IRQ := True\<rparr>"

definition release_IRQ :: "'w cpu \<Rightarrow> 'w cpu" where
  "release_IRQ s = s\<lparr>IRQ := False\<rparr>"

definition stop :: "'w cpu \<Rightarrow> 'w cpu" where
  "stop s = s\<lparr>cpu_done := True\<rparr>"

fun apply_call :: "cpu_call \<Rightarrow> 'w cpu \<Rightarrow> 'w cpu" where
  "apply_call Pull_NMI s = pull_NMI s"
| "apply_call Pull_IRQ s = pull_IRQ s"
| "apply_call Release_IRQ s = release_IRQ s"
| "apply_call Stop s = stop s"

subsection \<open>The execution loop: \<^verbatim>\<open>CPU::run\<close>\<close>

text \<open>
  Modelled from the spec: the constant \<^verbatim>\<open>I_FLAG\<close> is declared in cpu.h, which is not
  among the sources. The spec lists the flags of P as N, V, -, B, D, I, Z, C from bit 7
  down, so I is bit 2.
\<close>

definition I_FLAG :: u8 where
  "I_FLAG = 0x04"

text \<open>
  \<^verbatim>\<open>bus->on_cpu_tick()\<close>: the devices advance, and the calls they make back into the
  CPU are applied in order.
\<close>

definition bus_tick :: "'w env \<Rightarrow> 'w cpu \<Rightarrow> 'w cpu" where
  "bus_tick E s =
     (let r = on_cpu_tick E (world s)
      in fold apply_call (fst r) (s\<lparr>world := snd r\<rparr>))"

text \<open>The bound of the tick loop, \<^verbatim>\<open>cycles[last_op] + result_cycle\<close>, read at every test.\<close>

definition tick_bound :: "'w cpu \<Rightarrow> nat" where
  "tick_bound s = unat (cycles ! unat (last_op s)) + result_cycle s"

function tick_loop :: "'w env \<Rightarrow> nat \<Rightarrow> 'w cpu \<Rightarrow> 'w cpu" where
  "tick_loop E i s =
     (if i < tick_bound s then tick_loop E (i + 1) (bus_tick E s) else s)"
  by pat_completeness auto
termination
proof (relation "measure (\<lambda>(E, i, s). tick_bound s - i)")
  show "wf (measure (\<lambda>(E :: 'w env, i, s :: 'w cpu). tick_bound s - i))"
    by simp
next
  fix E :: "'w env" and i :: nat and s :: "'w cpu"
  assume less: "i < tick_bound s"
  have call: "tick_bound (apply_call c t) = tick_bound t" for c and t :: "'w cpu"
    by (cases c) (simp_all add: tick_bound_def pull_NMI_def pull_IRQ_def release_IRQ_def stop_def)
  have calls: "tick_bound (fold apply_call cs t) = tick_bound t" for cs and t :: "'w cpu"
    by (induction cs arbitrary: t) (simp_all add: call)
  have "tick_bound (bus_tick E s) = tick_bound s"
    by (simp add: bus_tick_def Let_def calls) (simp add: tick_bound_def)
  with less show "((E, i + 1, bus_tick E s), (E, i, s)) \<in> measure (\<lambda>(E, i, s). tick_bound s - i)"
    by simp
qed

declare tick_loop.simps [simp del]

text \<open>
  \<^verbatim>\<open>read(lo) | (read(hi) << 8)\<close>, as the three vector loads of \<^verbatim>\<open>run\<close> have it. C++
  leaves the order of the two reads open; the model reads the low byte first.
\<close>

definition read_vector :: "'w env \<Rightarrow> u16 \<Rightarrow> u16 \<Rightarrow> 'w cpu \<Rightarrow> u16 \<times> 'w cpu" where
  "read_vector E lo hi s =
     (let a = read E lo s; b = read E hi (snd a)
      in (ucast (fst a) OR push_bit 8 (ucast (fst b)), snd b))"

text \<open>
  Modelled from the spec: the template \<^verbatim>\<open>stack_push\<close> is declared in cpu.h, which is
  not among the sources. The spec has the status byte pushed after PC when an interrupt
  is serviced, so \<^verbatim>\<open>stack_push<&CPU::ProcStatus>()\<close> pushes the byte that
  \<^verbatim>\<open>ProcStatus()\<close> returns.
\<close>

definition stack_push_ProcStatus :: "'w env \<Rightarrow> 'w cpu \<Rightarrow> 'w cpu" where
  "stack_push_ProcStatus E s = push (ProcStatus E s) s"

text \<open>
  The first statements of the loop body: \<^verbatim>\<open>last_PC = PC; last_op = next();
  (this->*ops[last_op])();\<close> (\<^verbatim>\<open>print_status\<close> only prints.)
\<close>

definition dispatch :: "'w env \<Rightarrow> 'w cpu \<Rightarrow> 'w cpu" where
  "dispatch E s =
     (let s1 = s\<lparr>last_PC := PC s\<rparr>;
          r = next' E s1;
          s2 = (snd r)\<lparr>last_op := fst r\<rparr>
      in ops E (last_op s2) s2)"

text \<open>
  The loop body up to the test of \<^verbatim>\<open>_done\<close>: fetch and dispatch, tick the bus, clear
  \<^verbatim>\<open>result_cycle\<close>.
\<close>

definition fetch_execute :: "'w env \<Rightarrow> 'w cpu \<Rightarrow> 'w cpu" where
  "fetch_execute E s =
     (let s3 = dispatch E s;
          s4 = tick_loop E 0 s3
      in s4\<lparr>result_cycle := 0\<rparr>)"

text \<open>The second half, after the test of \<^verbatim>\<open>_done\<close>: the two interrupt branches.\<close>

definition service_interrupts :: "'w env \<Rightarrow> 'w cpu \<Rightarrow> 'w cpu" where
  "service_interrupts E s =
     (if IRQ s \<and> P s AND I_FLAG = 0 then
        (let s1 = push2 (PC s) s;
             s2 = stack_push_ProcStatus E s1;
             s3 = s2\<lparr>P := P s2 OR I_FLAG\<rparr>;
             r = read_vector E 0xfffe 0xffff s3
         in (snd r)\<lparr>PC := fst r\<rparr>)
      else if do_NMI s then
        (let s0 = s\<lparr>do_NMI := False\<rparr>;
             s1 = push2 (PC s0) s0;
             s2 = stack_push_ProcStatus E s1;
             r = read_vector E 0xfffa 0xfffb s2
         in (snd r)\<lparr>PC := fst r\<rparr>)
      else s)"

text \<open>
  The loop \<^verbatim>\<open>for (;;)\<close> ends only when \<^verbatim>\<open>_done\<close> is set, so it gets fuel: \<open>None\<close>
  is a loop that has not ended after \<open>n\<close> iterations.
\<close>

fun run_loop :: "'w env \<Rightarrow> nat \<Rightarrow> 'w cpu \<Rightarrow> 'w cpu option" where
  "run_loop E 0 s = None"
| "run_loop E (Suc n) s =
     (let s1 = fetch_execute E s
      in if cpu_done s1 then Some s1 else run_loop E n (service_interrupts E s1))"

definition run :: "'w env \<Rightarrow> nat \<Rightarrow> 'w cpu \<Rightarrow> 'w cpu option" where
  "run E n s =
     (let r = read_vector E 0xfffc 0xfffd s
      in run_loop E n ((snd r)\<lparr>PC := fst r\<rparr>))"

text \<open>
  The state in which the loop tests the interrupts for the \<open>n\<close>-th time from the top of
  an iteration (counting from 0); \<open>None\<close> when the loop has ended before.
\<close>

fun boundary :: "'w env \<Rightarrow> nat \<Rightarrow> 'w cpu \<Rightarrow> 'w cpu option" where
  "boundary E 0 s =
     (let s1 = fetch_execute E s in if cpu_done s1 then None else Some s1)"
| "boundary E (Suc n) s =
     (let s1 = fetch_execute E s
      in if cpu_done s1 then None else boundary E n (service_interrupts E s1))"

subsection \<open>Calls of \<^verbatim>\<open>pull_NMI\<close> along a run\<close>

text \<open>The calls that \<open>n\<close> successive bus ticks make back into the CPU, in order.\<close>

fun tick_calls :: "'w env \<Rightarrow> nat \<Rightarrow> 'w \<Rightarrow> cpu_call list" where
  "tick_calls E 0 w = []"
| "tick_calls E (Suc n) w =
     fst (on_cpu_tick E w) @ tick_calls E n (snd (on_cpu_tick E w))"

text \<open>
  \<^verbatim>\<open>pull_NMI\<close> is called during the iteration that starts in \<open>s\<close>: the latch, clear
  before, is set when the handler returns, or one of the ticks of the tick loop calls
  \<^verbatim>\<open>pull_NMI\<close>.
\<close>

definition NMI_pulled :: "'w env \<Rightarrow> 'w cpu \<Rightarrow> bool" where
  "NMI_pulled E s =
     ((do_NMI (dispatch E s) \<and> \<not> do_NMI s) \<or>
      Pull_NMI \<in> set (tick_calls E (tick_bound (dispatch E s)) (world (dispatch E s))))"

text \<open>
  No call of \<^verbatim>\<open>pull_NMI\<close> in the iterations that lead from \<open>s\<close> to the interrupt tests
  number 0 to \<open>n\<close> (the states \<open>boundary E 0 s\<close>, ..., \<open>boundary E n s\<close>).
\<close>

fun quiet :: "'w env \<Rightarrow> nat \<Rightarrow> 'w cpu \<Rightarrow> bool" where
  "quiet E 0 s = (\<not> NMI_pulled E s)"
| "quiet E (Suc n) s =
     (\<not> NMI_pulled E s \<and> quiet E n (service_interrupts E (fetch_execute E s)))"

subsection \<open>Saved states: \<^verbatim>\<open>CPU_state\<close>, \<^verbatim>\<open>get_state\<close>, \<^verbatim>\<open>restore_state\<close>\<close>

text \<open>The fields of \<^verbatim>\<open>struct CPU_state\<close>, prefixed to keep them apart from the CPU's.\<close>

record CPU_state =
  st_memory :: "nat \<Rightarrow> u8"
  st_P :: u8
  st_A :: u8
  st_X :: u8
  st_Y :: u8
  st_SP :: u8
  st_PC :: u16

text \<open>
  \<^verbatim>\<open>for (size_t i = 0; i < memory.size(); ++i) dst[i] = src[i];\<close> with
  \<^verbatim>\<open>memory.size()\<close> = 0x800.
\<close>

function copy_loop :: "(nat \<Rightarrow> u8) \<Rightarrow> nat \<Rightarrow> (nat \<Rightarrow> u8) \<Rightarrow> (nat \<Rightarrow> u8)" where
  "copy_loop src i dst =
     (if i < 0x800 then copy_loop src (i + 1) (dst(i := src i)) else dst)"
  by pat_completeness auto
termination
  by (relation "measure (\<lambda>(src, i, dst). 0x800 - i)") auto

declare copy_loop.simps [simp del]

text \<open>\<^verbatim>\<open>new CPU_state()\<close> starts from a zeroed object.\<close>

definition get_state :: "'w cpu \<Rightarrow> CPU_state" where
  "get_state s =
     \<lparr>st_memory = copy_loop (memory s) 0 (\<lambda>i. 0),
      st_P = P s, st_A = A s, st_X = X s, st_Y = Y s, st_SP = SP s, st_PC = PC s\<rparr>"

definition restore_state :: "CPU_state \<Rightarrow> 'w cpu \<Rightarrow> 'w cpu" where
  "restore_state st s =
     s\<lparr>memory := copy_loop (st_memory st) 0 (memory s),
       P := st_P st, A := st_A st, X := st_X st, Y := st_Y st,
       SP := st_SP st, PC := st_PC st\<rparr>"

subsection \<open>Controllers (include/bus.h)\<close>

text \<open>\<^verbatim>\<open>enum IController::Button\<close> with the value of each enumerator.\<close>

datatype Button =
  CONTROL_RIGHT | CONTROL_LEFT | CONTROL_DOWN | CONTROL_UP
| CONTROL_START | CONTROL_SELECT | CONTROL_B | CONTROL_A

fun Button_value :: "Button \<Rightarrow> nat" where
  "Button_value CONTROL_RIGHT = 0"
| "Button_value CONTROL_LEFT = 1"
| "Button_value CONTROL_DOWN = 2"
| "Button_value CONTROL_UP = 3"
| "Button_value CONTROL_START = 4"
| "Button_value CONTROL_SELECT = 5"
| "Button_value CONTROL_B = 6"
| "Button_value CONTROL_A = 7"

text \<open>
  \<open>n\<close> successive bus reads of one address, and \<open>n\<close> successive \<^verbatim>\<open>read()\<close> calls on
  controller \<open>i\<close>: the bytes returned, in order, and the state left.
\<close>

fun reads :: "'w env \<Rightarrow> u16 \<Rightarrow> nat \<Rightarrow> 'w cpu \<Rightarrow> u8 list \<times> 'w cpu" where
  "reads E addr 0 s = ([], s)"
| "reads E addr (Suc n) s =
     (let r = read E addr s; rs = reads E addr n (snd r)
      in (fst r # fst rs, snd rs))"

fun ctl_reads :: "'w env \<Rightarrow> nat \<Rightarrow> nat \<Rightarrow> 'w \<Rightarrow> u8 list \<times> 'w" where
  "ctl_reads E i 0 w = ([], w)"
| "ctl_reads E i (Suc n) w =
     (let r = ctl_read E i w; rs = ctl_reads E i n (snd r)
      in (fst r # fst rs, snd rs))"

subsection \<open>A test bench\<close>

text \<open>
  Stand-ins for the devices, used where a property is evaluated on a concrete machine.
  The bench records every byte that reaches \<^verbatim>\<open>regw_OAM_data\<close>, counts the
  \<^verbatim>\<open>strobe()\<close> calls each controller receives and counts the bus ticks. Every cell of
  the cartridge holds the low byte of its own address; the readable PPU registers, the
  APU and the controllers return fixed non-zero bytes. The
  handler of opcode 0xF0 calls \<^verbatim>\<open>addcyc()\<close> twice; every other handler does
  nothing.
\<close>

record bench =
  oam_written :: "u8 list"
  strobes0 :: nat
  strobes1 :: nat
  ticks :: nat

definition bench_env :: "bench env" where
  "bench_env =
     \<lparr>regw_control = (\<lambda>v w. w),
      regw_mask = (\<lambda>v w. w),
      regw_OAM_address = (\<lambda>v w. w),
      regw_OAM_data = (\<lambda>v w. w\<lparr>oam_written := oam_written w @ [v]\<rparr>),
      regw_scroll = (\<lambda>v w. w),
      regw_address = (\<lambda>v w. w),
      regw_data = (\<lambda>v w. w),
      regr_status = (\<lambda>w. (0x80, w)),
      regr_OAM_data = (\<lambda>w. (0x81, w)),
      regr_data = (\<lambda>w. (0x82, w)),
      apu_read = (\<lambda>w. (0x40, w)),
      apu_write = (\<lambda>v i w. w),
      ctl_read = (\<lambda>i w. (0x41, w)),
      ctl_strobe = (\<lambda>i w. if i = 0 then w\<lparr>strobes0 := Suc (strobes0 w)\<rparr>
                             else w\<lparr>strobes1 := Suc (strobes1 w)\<rparr>),
      read_prg = (\<lambda>a w. (ucast a, w)),
      write_prg = (\<lambda>v a w. w),
      on_cpu_tick = (\<lambda>w. ([], w\<lparr>ticks := Suc (ticks w)\<rparr>)),
      ops = (\<lambda>op s. if op = 0xf0 then addcyc (addcyc s) else s),
      ProcStatus = (\<lambda>s. P s)\<rparr>"

definition bench_cpu :: "bench cpu" where
  "bench_cpu =
     \<lparr>memory = (\<lambda>i. 0), P = 0, A = 0, X = 0, Y = 0, SP = 0xfd, PC = 0x80f0,
      last_PC = 0, last_op = 0, result_cycle = 0, IRQ = False, cpu_done = False,
      do_NMI = False,
      world = \<lparr>oam_written = [], strobes0 = 0, strobes1 = 0, ticks = 0\<rparr>\<rparr>"

text \<open>
  The same bench with a bus that raises the NMI line once, at its second tick.
\<close>

definition pulse_env :: "bench env" where
  "pulse_env =
     bench_env\<lparr>on_cpu_tick :=
       (\<lambda>w. (if ticks w = 1 then [Pull_NMI] else [], w\<lparr>ticks := Suc (ticks w)\<rparr>))\<rparr>"

section \<open>Properties\<close>

lemma ram_index_bound: "unat ((addr :: u16) AND 0x7ff) < 0x800"
proof -
  have "addr AND 0x7ff \<le> 0x7ff" by (rule word_and_le1)
  then have "unat (addr AND 0x7ff) \<le> unat (0x7ff :: u16)" by (simp only: word_le_nat_alt)
  then show ?thesis by simp
qed

lemma stack_index_bound: "0x100 \<le> 0x100 + unat (sp :: u8) \<and> 0x100 + unat sp < 0x200"
  using unsigned_less [of sp, where 'a = nat] by simp


lemma mask_0xff: "(0xff :: u16) = mask 8"
  by (simp add: mask_eq_exp_minus_1)

lemma mask_0x7ff: "(0x7ff :: u16) = mask 11"
  by (simp add: mask_eq_exp_minus_1)

lemma mask_0x1f: "(0x1f :: u16) = mask 5"
  by (simp add: mask_eq_exp_minus_1)

lemma unat_ram_index: "unat ((addr :: u16) AND 0x7ff) = unat addr mod 0x800"
  unfolding mask_0x7ff take_bit_eq_mask [symmetric]
  by (simp add: unsigned_take_bit_eq take_bit_eq_mod unat_mod_distrib)

lemma unat_io_index: "unat ((addr :: u16) AND 0x1f) = unat addr mod 0x20"
  unfolding mask_0x1f take_bit_eq_mask [symmetric]
  by (simp add: unsigned_take_bit_eq take_bit_eq_mod unat_mod_distrib)

lemma split_u16:
  "(ucast (ucast (x AND 0xff) :: u8) :: u16) OR push_bit 8 (ucast (ucast (drop_bit 8 x) :: u8)) = x"
  unfolding mask_0xff
  by (rule bit_word_eqI) (auto simp add: bit_simps)

subsection \<open>Construction\<close>

text \<open>
  C10. After construction the work RAM is not uniformly zero: the cells at $0008,
  $0009, $000A, $000F and $01FC hold 0xF7, 0xEF, 0xDF, 0xBF and 0x69, both in the array
  and as the bus reads them, whatever the rest of the object held.
\<close>

theorem CPU_presets_work_RAM:
  "memory (CPU w s0) 0x008 = 0xf7 \<and> memory (CPU w s0) 0x009 = 0xef \<and>
   memory (CPU w s0) 0x00a = 0xdf \<and> memory (CPU w s0) 0x00f = 0xbf \<and>
   memory (CPU w s0) 0x1fc = 0x69 \<and>
   read E 0x0008 (CPU w s0) = (0xf7, CPU w s0) \<and>
   read E 0x0009 (CPU w s0) = (0xef, CPU w s0) \<and>
   read E 0x000a (CPU w s0) = (0xdf, CPU w s0) \<and>
   read E 0x000f (CPU w s0) = (0xbf, CPU w s0) \<and>
   read E 0x01fc (CPU w s0) = (0x69, CPU w s0) \<and>
   memory (CPU w s0) \<noteq> (\<lambda>i. 0)"
proof -
  have ne: "memory (CPU w s0) \<noteq> (\<lambda>i. 0)"
  proof
    assume "memory (CPU w s0) = (\<lambda>i. 0)"
    then have "memory (CPU w s0) 8 = 0" by simp
    then show False by (simp add: CPU_def)
  qed
  show ?thesis using ne
    by (simp add: CPU_def read_def)
qed

subsection \<open>Work RAM and its mirrors\<close>

text \<open>
  C5. For an address in $0000-$1FFF, a write followed by a read of the same address
  returns the byte written, and so does a read of any address of $0000-$1FFF that is
  congruent to it modulo $0800.
\<close>

theorem ram_write_then_read:
  assumes "addr < 0x2000" and "addr' < 0x2000"
    and "unat addr' mod 0x800 = unat addr mod 0x800"
  shows "fst (read E addr (write' E v addr s)) = v \<and>
         fst (read E addr' (write' E v addr s)) = v"
  using assms by (simp add: read_def write'_def unat_ram_index)

theorem ram_write_then_read_witness:
  "fst (read bench_env 0x0123 (write' bench_env 0x5a 0x0123 bench_cpu)) = 0x5a \<and>
   fst (read bench_env 0x1923 (write' bench_env 0x5a 0x0123 bench_cpu)) = 0x5a"
  using ram_write_then_read [of "0x0123" "0x1923" bench_env "0x5a" bench_cpu]
  by simp

subsection \<open>The stack\<close>

lemma unat_SP_dec: "unat (SP s - 1) = (unat (SP s) + 255) mod 256"
proof (cases "SP s = 0")
  case True
  then show ?thesis by (simp add: unsigned_minus_1_eq_mask mask_eq_exp_minus_1)
next
  case False
  then have "1 \<le> unat (SP s)" by (simp add: unat_gt_0 Suc_le_eq)
  moreover have "unat (SP s) < 256" using unsigned_less [of "SP s", where 'a = nat] by simp
  moreover have "unat (SP s - 1) = unat (SP s) - 1" using False by (simp add: unat_minus_one)
  ultimately show ?thesis by (simp add: mod_if)
qed

lemma unat_SP_inc: "unat (SP s + 1) = (unat (SP s) + 1) mod 256"
  by (simp add: unat_word_ariths)

lemma pull_push: "pull (push x s) = (x, (push x s)\<lparr>SP := SP s\<rparr>)"
  by (simp add: pull_def push_def add.commute)

lemma push_changes: "{i. memory (push x s) i \<noteq> memory s i} \<subseteq> {0x100..0x1ff}"
  using stack_index_bound [of "SP s"] by (auto simp add: push_def split: if_splits)

text \<open>
  C7. SP is a byte. A push stores its byte at $0100+SP and decrements SP modulo 256; a
  pull increments SP modulo 256 and returns the byte at $0100+SP. A pull after a push
  returns the pushed byte with SP restored, and \<^verbatim>\<open>pull2\<close> after \<^verbatim>\<open>push2\<close> returns the
  pushed 16-bit value with SP restored. Pushes change no cell outside $0100-$01FF and
  pulls change no cell at all.
\<close>

theorem stack_push_pull:
  "unat (SP s) \<le> 0xff \<and>
   memory (push x s) (0x100 + unat (SP s)) = x \<and>
   SP (push x s) = SP s - 1 \<and>
   unat (SP (push x s)) = (unat (SP s) + 255) mod 256 \<and>
   fst (pull s) = memory s (0x100 + unat (SP s + 1)) \<and>
   SP (snd (pull s)) = SP s + 1 \<and>
   unat (SP (snd (pull s))) = (unat (SP s) + 1) mod 256 \<and>
   fst (pull (push x s)) = x \<and> SP (snd (pull (push x s))) = SP s \<and>
   fst (pull2 (push2 y s)) = y \<and> SP (snd (pull2 (push2 y s))) = SP s \<and>
   {i. memory (push x s) i \<noteq> memory s i} \<subseteq> {0x100..0x1ff} \<and>
   {i. memory (push2 y s) i \<noteq> memory s i} \<subseteq> {0x100..0x1ff} \<and>
   memory (snd (pull s)) = memory s \<and> memory (snd (pull2 s)) = memory s"
proof -
  have range: "unat (SP s) \<le> 0xff"
    using unsigned_less [of "SP s", where 'a = nat] by simp
  have two: "fst (pull2 (push2 y s)) = y \<and> SP (snd (pull2 (push2 y s))) = SP s"
    by (simp add: pull2_def push2_def Let_def pull_push)
      (simp add: pull_def push_def add.commute split_u16 word_unat_eq_iff [symmetric])
  have outside: "memory (push a t) i = memory t i" if "i \<notin> {0x100..0x1ff}"
    for a i and t :: "'a cpu"
    using push_changes [of a t] that by blast
  have two_changes: "{i. memory (push2 y s) i \<noteq> memory s i} \<subseteq> {0x100..0x1ff}"
  proof
    fix i assume "i \<in> {i. memory (push2 y s) i \<noteq> memory s i}"
    then have "memory (push2 y s) i \<noteq> memory s i" by simp
    then show "i \<in> {0x100..0x1ff}"
      unfolding push2_def using outside by metis
  qed
  have pushed: "memory (push x s) (0x100 + unat (SP s)) = x \<and> SP (push x s) = SP s - 1
      \<and> unat (SP (push x s)) = (unat (SP s) + 255) mod 256"
    using unat_SP_dec [of s] by (simp add: push_def)
  have pulled: "fst (pull s) = memory s (0x100 + unat (SP s + 1)) \<and>
      SP (snd (pull s)) = SP s + 1 \<and>
      unat (SP (snd (pull s))) = (unat (SP s) + 1) mod 256"
    using unat_SP_inc [of s] by (simp add: pull_def add.commute)
  have one: "fst (pull (push x s)) = x \<and> SP (snd (pull (push x s))) = SP s"
    by (simp add: pull_push)
  have pulls: "memory (snd (pull s)) = memory s \<and> memory (snd (pull2 s)) = memory s"
    by (simp add: pull_def pull2_def Let_def)
  show ?thesis using range two two_changes pushed pulled one pulls push_changes [of x s]
    by blast
qed

subsection \<open>Reads that no device answers\<close>

text \<open>
  C6. A read of an address in $4000-$4014 (the I/O range below the APU status register
  at $4015) returns 0, and so does a read of an address in $2000-$3FFF whose low three
  bits are not 2, 4 or 7 (a write-only PPU register); neither changes anything.
\<close>

theorem bad_reads_return_zero:
  "(0x4000 \<le> addr \<and> addr < 0x4015 \<longrightarrow> read E addr s = (0, s)) \<and>
   (0x2000 \<le> addr \<and> addr < 0x4000 \<and> addr AND 7 \<notin> {2, 4, 7} \<longrightarrow> read E addr s = (0, s))"
proof -
  have io: "addr AND 0x1f \<noteq> 0x15 \<and> addr AND 0x1f \<noteq> 0x16 \<and> addr AND 0x1f \<noteq> 0x17"
    if "0x4000 \<le> addr" and "addr < 0x4015"
  proof -
    from that have "0x4000 \<le> unat addr" "unat addr < 0x4015"
      by (simp_all add: word_le_nat_alt word_less_nat_alt)
    then have "unat addr mod 0x20 < 0x15" by presburger
    then have "unat (addr AND 0x1f) < 0x15" by (simp add: unat_io_index)
    then show ?thesis by auto
  qed
  have ppu: "read E addr s = (0, s)"
    if "0x2000 \<le> addr \<and> addr < 0x4000 \<and> addr AND 7 \<notin> {2, 4, 7}"
    using that by (auto simp add: read_def word_le_nat_alt word_less_nat_alt)
  have apu: "read E addr s = (0, s)" if "0x4000 \<le> addr \<and> addr < 0x4015"
    using that io by (simp add: read_def word_le_nat_alt word_less_nat_alt)
  show ?thesis using ppu apu by blast
qed

theorem bad_reads_return_zero_witness:
  "read bench_env 0x4010 bench_cpu = (0, bench_cpu) \<and>
   read bench_env 0x3ffd bench_cpu = (0, bench_cpu)"
  using bad_reads_return_zero [of "0x4010" bench_env bench_cpu]
    bad_reads_return_zero [of "0x3ffd" bench_env bench_cpu]
  by simp

subsection \<open>Saved states\<close>

lemma copy_loop_cell:
  "copy_loop src i dst k = (if i \<le> k \<and> k < 0x800 then src k else dst k)"
proof (induction src i dst rule: copy_loop.induct)
  case (1 src i dst)
  show ?case
  proof (cases "i < 0x800")
    case True
    have "copy_loop src i dst k = copy_loop src (i + 1) (dst(i := src i)) k"
      using True by (subst copy_loop.simps) simp
    also have "\<dots> = (if i + 1 \<le> k \<and> k < 0x800 then src k else (dst(i := src i)) k)"
      by (rule 1 [OF True])
    also have "\<dots> = (if i \<le> k \<and> k < 0x800 then src k else dst k)"
      using True by auto
    finally show ?thesis .
  next
    case False
    then show ?thesis by (subst copy_loop.simps) auto
  qed
qed

lemma copy_loop_same: "copy_loop src 0 src = src"
  by (rule ext) (simp add: copy_loop_cell)

lemma copy_copy: "copy_loop (copy_loop src 0 z) 0 dst = copy_loop src 0 dst"
  by (rule ext) (simp add: copy_loop_cell)

text \<open>
  C9. Restoring a state captured by \<^verbatim>\<open>get_state\<close> gives P, A, X, Y, SP, PC and all 2048
  bytes of work RAM their values at capture, on whatever CPU it is restored; restored on
  the CPU it was captured from, it changes nothing. \<^verbatim>\<open>restore_state\<close> assigns these
  components and no others: \<^verbatim>\<open>last_PC\<close>, \<^verbatim>\<open>last_op\<close>, \<^verbatim>\<open>result_cycle\<close>, the interrupt
  latches \<^verbatim>\<open>IRQ\<close> and \<^verbatim>\<open>do_NMI\<close>, \<^verbatim>\<open>_done\<close> and the devices keep their values.
\<close>

theorem get_restore_round_trip:
  "P (restore_state (get_state s) t) = P s \<and>
   A (restore_state (get_state s) t) = A s \<and>
   X (restore_state (get_state s) t) = X s \<and>
   Y (restore_state (get_state s) t) = Y s \<and>
   SP (restore_state (get_state s) t) = SP s \<and>
   PC (restore_state (get_state s) t) = PC s \<and>
   map (memory (restore_state (get_state s) t)) [0..<0x800] = map (memory s) [0..<0x800] \<and>
   map (st_memory (get_state s)) [0..<0x800] = map (memory s) [0..<0x800] \<and>
   map (memory (restore_state st t)) [0..<0x800] = map (st_memory st) [0..<0x800] \<and>
   restore_state (get_state s) s = s \<and>
   restore_state st t =
     t\<lparr>memory := copy_loop (st_memory st) 0 (memory t), P := st_P st, A := st_A st,
       X := st_X st, Y := st_Y st, SP := st_SP st, PC := st_PC st\<rparr> \<and>
   last_PC (restore_state st t) = last_PC t \<and>
   last_op (restore_state st t) = last_op t \<and>
   result_cycle (restore_state st t) = result_cycle t \<and>
   IRQ (restore_state st t) = IRQ t \<and>
   cpu_done (restore_state st t) = cpu_done t \<and>
   do_NMI (restore_state st t) = do_NMI t \<and>
   world (restore_state st t) = world t"
proof -
  have mem: "map (memory (restore_state (get_state s) t)) [0..<0x800] = map (memory s) [0..<0x800]"
    by (rule map_cong) (simp_all add: restore_state_def get_state_def copy_loop_cell)
  have saved: "map (st_memory (get_state s)) [0..<0x800] = map (memory s) [0..<0x800]"
    by (rule map_cong) (simp_all add: get_state_def copy_loop_cell)
  have restored: "map (memory (restore_state st t)) [0..<0x800] = map (st_memory st) [0..<0x800]"
    by (rule map_cong) (simp_all add: restore_state_def copy_loop_cell)
  have same: "restore_state (get_state s) s = s"
    by (simp add: restore_state_def get_state_def copy_copy copy_loop_same)
  show ?thesis using mem saved restored same
    by (simp add: restore_state_def get_state_def)
qed

subsection \<open>OAM DMA\<close>

lemma dma_index_bound:
  assumes "k < 256"
  shows "unat ((v :: u8) AND 7) * 0x100 + k < 0x800"
proof -
  have "v AND 7 \<le> 7" by (rule word_and_le1)
  then have "unat (v AND 7) \<le> 7" by (simp add: word_le_nat_alt)
  with assms show ?thesis by simp
qed

lemma ram_read_of_nat:
  assumes "n < 0x800"
  shows "read E (of_nat n) s = (memory s n, s)"
proof -
  have u: "unat (of_nat n :: u16) = n" using assms by (simp add: unat_of_nat)
  then have "(of_nat n :: u16) < 0x2000" using assms by (simp add: word_less_nat_alt)
  moreover have "unat ((of_nat n :: u16) AND 0x7ff) = n"
    using assms u by (simp add: unat_ram_index)
  ultimately show ?thesis by (simp add: read_def)
qed

lemma dma_read:
  assumes "k < 256"
  shows "read E (ucast ((v :: u8) AND 7) * 256 + of_nat k) s = (memory s (unat (v AND 7) * 0x100 + k), s)"
proof -
  have "read E (of_nat (unat (v AND 7) * 0x100 + k)) s = (memory s (unat (v AND 7) * 0x100 + k), s)"
    by (rule ram_read_of_nat) (rule dma_index_bound [OF assms])
  then show ?thesis by simp
qed

lemma dma_loop_from_ram:
  "i \<le> 256 \<Longrightarrow> dma_loop E v i s =
     s\<lparr>world := fold (regw_OAM_data E)
        (map (\<lambda>k. memory s (unat (v AND 7) * 0x100 + k)) [i..<256]) (world s)\<rparr>"
proof (induction E v i s rule: dma_loop.induct)
  case (1 E v i s)
  show ?case
  proof (cases "i < 256")
    case True
    let ?s' = "dev_put (regw_OAM_data E (memory s (unat (v AND 7) * 0x100 + i))) s"
    have "dma_loop E v i s = dma_loop E v (i + 1) ?s'"
      using True by (subst dma_loop.simps) (simp add: dma_read Let_def)
    also have "\<dots> = ?s'\<lparr>world := fold (regw_OAM_data E)
        (map (\<lambda>k. memory ?s' (unat (v AND 7) * 0x100 + k)) [i + 1..<256]) (world ?s')\<rparr>"
      using True "1.IH" [OF True refl] by (simp add: dma_read)
    also have "\<dots> = s\<lparr>world := fold (regw_OAM_data E)
        (map (\<lambda>k. memory s (unat (v AND 7) * 0x100 + k)) [i..<256]) (world s)\<rparr>"
      using True by (simp add: dev_put_def upt_conv_Cons [of i])
    finally show ?thesis .
  next
    case False
    with "1.prems" have "i = 256" by simp
    then show ?thesis by (subst dma_loop.simps) simp
  qed
qed

lemma mask_7_u8: "(7 :: u8) = mask 3"
  by (simp add: mask_eq_exp_minus_1)

lemma unat_page_index: "unat ((v :: u8) AND 7) = unat v mod 8"
  unfolding mask_7_u8 take_bit_eq_mask [symmetric]
  by (simp add: unsigned_take_bit_eq take_bit_eq_mod unat_mod_distrib)

lemma page_mod:
  assumes "k < 256"
  shows "(a * 256 + k) mod 2048 = (a mod 8) * 256 + (k :: nat)"
proof -
  define q r where "q = a div 8" and "r = a mod 8"
  have a: "a = q * 8 + r" and r: "r < 8" by (simp_all add: q_def r_def)
  have "a * 256 + k = q * 2048 + (r * 256 + k)" by (simp add: a)
  then have "(a * 256 + k) mod 2048 = (r * 256 + k) mod 2048"
    by (simp only: mod_mult_self3)
  moreover have "r * 256 + k < 2048" using r assms by simp
  ultimately have "(a * 256 + k) mod 2048 = r * 256 + k" by (simp only: mod_less)
  then show ?thesis by (simp add: r_def)
qed

lemma unat_of_nat_u16: "n < 0x10000 \<Longrightarrow> unat (of_nat n :: u16) = n"
  by (simp add: unat_of_nat)

lemma ram_page_read:
  assumes "v < 0x20" and "k < 256"
  shows "read E (push_bit 8 (ucast (v :: u8)) + of_nat k) s =
         (memory s (unat (v AND 7) * 0x100 + k), s)"
proof -
  define n where "n = unat v * 256 + k"
  have v: "unat v < 32" using assms(1) by (simp add: word_less_nat_alt)
  then have n: "n < 0x2000" using assms(2) by (simp add: n_def)
  have a: "(push_bit 8 (ucast v) + of_nat k :: u16) = of_nat n"
    by (simp add: push_bit_eq_mult n_def)
  have u: "unat (of_nat n :: u16) = n" using n by (simp add: unat_of_nat_u16)
  then have lt: "(of_nat n :: u16) < 0x2000" using n by (simp add: word_less_nat_alt)
  have "unat ((of_nat n :: u16) AND 0x7ff) = n mod 0x800"
    by (simp only: unat_ram_index u)
  also have "\<dots> = unat (v AND 7) * 0x100 + k"
    using assms(2) by (simp add: page_mod unat_page_index n_def)
  finally have "unat ((of_nat n :: u16) AND 0x7ff) = unat (v AND 7) * 0x100 + k" .
  then show ?thesis using lt unfolding a by (simp add: read_def)
qed

text \<open>
  C1, as the code has it. A write of any byte \<open>v\<close> to $4014 passes exactly 256 bytes to
  \<^verbatim>\<open>regw_OAM_data\<close>, in order, and changes nothing else. The bytes are the work RAM
  cells \<open>(v AND 7) * 0x100 + k\<close> for \<open>k = 0, ..., 255\<close>, which is what the bus read returns
  at address \<open>((v AND 7) << 8) + k\<close>: the source page is masked into work RAM. For
  \<open>v < 0x20\<close> these are the bytes the bus read returns at \<open>(v << 8) + k\<close>. No cycle is
  charged: \<^verbatim>\<open>result_cycle\<close> keeps its value.
\<close>

theorem oam_dma_from_work_ram:
  "write' E v 0x4014 s =
     s\<lparr>world := fold (regw_OAM_data E)
        (map (\<lambda>k. memory s (unat (v AND 7) * 0x100 + k)) [0..<256]) (world s)\<rparr> \<and>
   map (\<lambda>k. memory s (unat (v AND 7) * 0x100 + k)) [0..<256] =
     map (\<lambda>k. fst (read E (push_bit 8 (ucast (v AND 7)) + of_nat k) s)) [0..<256] \<and>
   (v < 0x20 \<longrightarrow>
      map (\<lambda>k. memory s (unat (v AND 7) * 0x100 + k)) [0..<256] =
      map (\<lambda>k. fst (read E (push_bit 8 (ucast v) + of_nat k) s)) [0..<256]) \<and>
   length (map (\<lambda>k. memory s (unat (v AND 7) * 0x100 + k)) [0..<256]) = 256 \<and>
   result_cycle (write' E v 0x4014 s) = result_cycle s \<and>
   memory (write' E v 0x4014 s) = memory s"
proof -
  have w: "write' E v 0x4014 s =
     s\<lparr>world := fold (regw_OAM_data E)
        (map (\<lambda>k. memory s (unat (v AND 7) * 0x100 + k)) [0..<256]) (world s)\<rparr>"
    by (simp add: write'_def dma_loop_from_ram)
  have addr: "(push_bit 8 (ucast (v AND 7)) + of_nat k :: u16) = of_nat (unat (v AND 7) * 0x100 + k)" for k
    by (simp add: push_bit_eq_mult mult.commute)
  have masked: "map (\<lambda>k. memory s (unat (v AND 7) * 0x100 + k)) [0..<256] =
     map (\<lambda>k. fst (read E (push_bit 8 (ucast (v AND 7)) + of_nat k) s)) [0..<256]"
    by (rule map_cong) (simp_all add: addr dma_read)
  have plain: "map (\<lambda>k. memory s (unat (v AND 7) * 0x100 + k)) [0..<256] =
     map (\<lambda>k. fst (read E (push_bit 8 (ucast v) + of_nat k) s)) [0..<256]" if "v < 0x20"
    by (rule map_cong) (simp_all add: ram_page_read [OF that])
  show ?thesis using masked plain by (simp add: w)
qed

lemma bench_oam_fold:
  "fold (regw_OAM_data bench_env) bs w = w\<lparr>oam_written := oam_written w @ bs\<rparr>"
  by (induction bs arbitrary: w) (simp_all add: bench_env_def)

theorem oam_dma_from_work_ram_witness:
  "oam_written (world (write' bench_env 0x0a 0x4014 (bench_cpu\<lparr>memory := of_nat\<rparr>))) =
     map (\<lambda>k. fst (read bench_env (push_bit 8 (ucast (0x0a :: u8)) + of_nat k)
                      (bench_cpu\<lparr>memory := of_nat\<rparr>))) [0..<256] \<and>
   length (oam_written (world (write' bench_env 0x0a 0x4014 (bench_cpu\<lparr>memory := of_nat\<rparr>)))) = 256"
proof -
  let ?s = "bench_cpu\<lparr>memory := of_nat\<rparr>"
  let ?cells = "map (\<lambda>k. memory ?s (unat ((0x0a :: u8) AND 7) * 0x100 + k)) [0..<256]"
  let ?reads = "map (\<lambda>k. fst (read bench_env (push_bit 8 (ucast (0x0a :: u8)) + of_nat k) ?s)) [0..<256]"
  have empty: "oam_written (world bench_cpu) = []"
    by (simp add: bench_cpu_def)
  have page: "(0x0a :: u8) < 0x20" by simp
  have w: "write' bench_env 0x0a 0x4014 ?s =
      ?s\<lparr>world := fold (regw_OAM_data bench_env) ?cells (world ?s)\<rparr>"
    and eq: "?cells = ?reads"
    using oam_dma_from_work_ram [of bench_env "0x0a" ?s] page by blast+
  have "oam_written (world (write' bench_env 0x0a 0x4014 ?s)) = ?cells"
    by (simp only: w) (simp add: bench_oam_fold empty)
  then have "oam_written (world (write' bench_env 0x0a 0x4014 ?s)) = ?reads"
    by (simp only: eq)
  then show ?thesis by (simp only: length_map length_upt) simp
qed

text \<open>
  The claim as written fails for a page outside work RAM. On the test bench the bus read
  at $8001 returns 1, yet the second byte that a write of 0x80 to $4014 hands to
  \<^verbatim>\<open>regw_OAM_data\<close> is 0, the content of work RAM cell 1; and neither
  \<^verbatim>\<open>result_cycle\<close> nor the tick count of the bus moves, so no stall of 513 or 514
  cycles is charged.
\<close>

theorem oam_dma_counterexample:
  "oam_written (world (write' bench_env 0x80 0x4014 bench_cpu)) ! 1 = 0 \<and>
   fst (read bench_env 0x8001 bench_cpu) = 1 \<and>
   oam_written (world (write' bench_env 0x80 0x4014 bench_cpu)) ! 1 \<noteq>
     fst (read bench_env 0x8001 bench_cpu) \<and>
   result_cycle (write' bench_env 0x80 0x4014 bench_cpu) = result_cycle bench_cpu \<and>
   result_cycle (write' bench_env 0x80 0x4014 bench_cpu) \<noteq> result_cycle bench_cpu + 513 \<and>
   result_cycle (write' bench_env 0x80 0x4014 bench_cpu) \<noteq> result_cycle bench_cpu + 514 \<and>
   ticks (world (write' bench_env 0x80 0x4014 bench_cpu)) = ticks (world bench_cpu)"
proof -
  have "write' bench_env 0x80 0x4014 bench_cpu = bench_cpu\<lparr>world := (world bench_cpu)\<lparr>oam_written := map (\<lambda>k. 0) [0..<256]\<rparr>\<rparr>"
    by (simp add: write'_def dma_loop_from_ram bench_oam_fold) (simp add: bench_cpu_def)
  moreover have "fst (read bench_env 0x8001 bench_cpu) = 1"
    by (simp add: read_def dev_get_def bench_env_def)
  ultimately show ?thesis by simp
qed

subsection \<open>Controller ports\<close>

lemma reads_port:
  "reads E 0x4016 n s =
     (fst (ctl_reads E 0 n (world s)), s\<lparr>world := snd (ctl_reads E 0 n (world s))\<rparr>) \<and>
   reads E 0x4017 n s =
     (fst (ctl_reads E 1 n (world s)), s\<lparr>world := snd (ctl_reads E 1 n (world s))\<rparr>)"
  by (induction n arbitrary: s) (simp_all add: read_def dev_get_def Let_def)

lemma strobe_index: "unat ((v :: u8) AND 1) = (if bit v 0 then 1 else 0)"
  by (simp add: and_one_eq mod_2_eq_odd bit_0)

text \<open>
  C4, as the code has it. A write of \<open>v\<close> to $4016 makes one \<^verbatim>\<open>strobe()\<close> call, on
  controller \<open>v AND 1\<close>: bit 0 selects the controller, it is not a level. Writing 1 and
  then 0 therefore strobes controller 1 and then controller 0. Eight reads of $4016
  return what eight successive \<^verbatim>\<open>read()\<close> calls on controller 0 return, in order,
  and eight reads of $4017 the same for controller 1. The enumeration of bus.h numbers
  the buttons A, B, Select, Start, Up, Down, Left, Right as 7 down to 0.
\<close>

theorem strobe_selects_controller:
  "write' E v 0x4016 s = s\<lparr>world := ctl_strobe E (unat (v AND 1)) (world s)\<rparr> \<and>
   unat (v AND 1) = (if bit v 0 then 1 else 0) \<and>
   write' E 0 0x4016 (write' E 1 0x4016 s) =
     s\<lparr>world := ctl_strobe E 0 (ctl_strobe E 1 (world s))\<rparr> \<and>
   reads E 0x4016 8 s =
     (fst (ctl_reads E 0 8 (world s)), s\<lparr>world := snd (ctl_reads E 0 8 (world s))\<rparr>) \<and>
   reads E 0x4017 8 s =
     (fst (ctl_reads E 1 8 (world s)), s\<lparr>world := snd (ctl_reads E 1 8 (world s))\<rparr>) \<and>
   map Button_value [CONTROL_A, CONTROL_B, CONTROL_SELECT, CONTROL_START,
                     CONTROL_UP, CONTROL_DOWN, CONTROL_LEFT, CONTROL_RIGHT] =
     [7, 6, 5, 4, 3, 2, 1, 0]"
  using reads_port [of E 8 s] strobe_index [of v]
  by (simp add: write'_def dev_put_def)

text \<open>
  The claim as written fails: on the test bench, a write with bit 0 set reaches
  controller 1 only and leaves controller 0 without any call, and a write with bit 0
  clear makes the same call on controller 0 only.
\<close>

theorem strobe_counterexample:
  "strobes0 (world (write' bench_env 1 0x4016 bench_cpu)) = 0 \<and>
   strobes1 (world (write' bench_env 1 0x4016 bench_cpu)) = 1 \<and>
   strobes0 (world (write' bench_env 0 0x4016 bench_cpu)) = 1 \<and>
   strobes1 (world (write' bench_env 0 0x4016 bench_cpu)) = 0"
  by (simp add: write'_def dev_put_def bench_env_def bench_cpu_def)

subsection \<open>Interrupts in the execution loop\<close>

lemma read_frame: "snd (read E a s) = s\<lparr>world := world (snd (read E a s))\<rparr>"
  by (simp add: read_def dev_get_def)

lemma frame_trans:
  "t = s\<lparr>world := w\<rparr> \<Longrightarrow> u = t\<lparr>world := w'\<rparr> \<Longrightarrow> u = s\<lparr>world := w'\<rparr>"
  by simp

lemma read_vector_frame:
  "snd (read_vector E lo hi s) = s\<lparr>world := world (snd (read_vector E lo hi s))\<rparr>"
proof -
  have "snd (read E hi (snd (read E lo s))) =
        s\<lparr>world := world (snd (read E hi (snd (read E lo s))))\<rparr>"
    by (rule frame_trans [OF read_frame read_frame])
  then show ?thesis by (simp add: read_vector_def Let_def)
qed

lemma read_rom: "0x4020 \<le> a \<Longrightarrow> read E a s = dev_get (read_prg E a) s"
  by (auto simp add: read_def word_le_nat_alt word_less_nat_alt)

lemma pushes:
  "stack_push_ProcStatus E (push2 pc s) =
     s\<lparr>memory := (memory s)
          (0x100 + unat (SP s) := ucast (drop_bit 8 pc),
           0x100 + unat (SP s - 1) := ucast (pc AND 0xff),
           0x100 + unat (SP s - 2) := ProcStatus E (push2 pc s)),
       SP := SP s - 3\<rparr>"
  by (simp add: stack_push_ProcStatus_def push2_def push_def)


lemma read_vector_rom_world:
  "0x4020 \<le> lo \<Longrightarrow> 0x4020 \<le> hi \<Longrightarrow>
   world (snd (read_vector E lo hi s)) = snd (read_prg E hi (snd (read_prg E lo (world s))))"
  by (simp add: read_vector_def Let_def read_rom dev_get_def)

lemma read_vector_rom:
  "0x4020 \<le> lo \<Longrightarrow> 0x4020 \<le> hi \<Longrightarrow>
   fst (read_vector E lo hi s) =
     ucast (fst (read_prg E lo (world s))) OR
     push_bit 8 (ucast (fst (read_prg E hi (snd (read_prg E lo (world s))))))"
  by (simp add: read_vector_def Let_def read_rom dev_get_def)

lemma load_vector:
  assumes "0x4020 \<le> lo" and "0x4020 \<le> hi"
  shows "(snd (read_vector E lo hi s))\<lparr>PC := fst (read_vector E lo hi s)\<rparr> =
     s\<lparr>world := snd (read_prg E hi (snd (read_prg E lo (world s)))),
       PC := ucast (fst (read_prg E lo (world s))) OR
             push_bit 8 (ucast (fst (read_prg E hi (snd (read_prg E lo (world s))))))\<rparr>"
  by (subst read_vector_frame) (simp add: read_vector_rom [OF assms] read_vector_rom_world [OF assms])

lemma service_irq:
  assumes "IRQ s \<and> P s AND I_FLAG = 0"
  shows "service_interrupts E s =
     s\<lparr>memory := (memory s)
          (0x100 + unat (SP s) := ucast (drop_bit 8 (PC s)),
           0x100 + unat (SP s - 1) := ucast (PC s AND 0xff),
           0x100 + unat (SP s - 2) := ProcStatus E (push2 (PC s) s)),
       SP := SP s - 3,
       P := P s OR I_FLAG,
       world := snd (read_prg E 0xffff (snd (read_prg E 0xfffe (world s)))),
       PC := ucast (fst (read_prg E 0xfffe (world s))) OR
             push_bit 8 (ucast (fst (read_prg E 0xffff (snd (read_prg E 0xfffe (world s))))))\<rparr>"
  using assms by (simp add: service_interrupts_def Let_def load_vector pushes)

lemma service_nmi:
  assumes "\<not> (IRQ s \<and> P s AND I_FLAG = 0) \<and> do_NMI s"
  shows "service_interrupts E s =
     s\<lparr>do_NMI := False,
       memory := (memory s)
          (0x100 + unat (SP s) := ucast (drop_bit 8 (PC s)),
           0x100 + unat (SP s - 1) := ucast (PC s AND 0xff),
           0x100 + unat (SP s - 2) := ProcStatus E (push2 (PC s) (s\<lparr>do_NMI := False\<rparr>))),
       SP := SP s - 3,
       world := snd (read_prg E 0xfffb (snd (read_prg E 0xfffa (world s)))),
       PC := ucast (fst (read_prg E 0xfffa (world s))) OR
             push_bit 8 (ucast (fst (read_prg E 0xfffb (snd (read_prg E 0xfffa (world s))))))\<rparr>"
  using assms by (auto simp add: service_interrupts_def Let_def load_vector pushes)

lemma service_none:
  "\<not> (IRQ s \<and> P s AND I_FLAG = 0) \<and> \<not> do_NMI s \<Longrightarrow> service_interrupts E s = s"
  by (auto simp add: service_interrupts_def)

text \<open>
  C2, as the code has it. Every iteration of the loop first fetches and executes an
  instruction and ticks the bus; unless \<^verbatim>\<open>_done\<close> is set it then tests the interrupts,
  the IRQ first. A held IRQ with the I flag clear is serviced even when an NMI is
  latched: PC is pushed (high byte, then low byte), then the status byte, I is set, PC
  is loaded from $FFFE/$FFFF, and the NMI latch keeps its value. Otherwise a latched NMI
  is serviced: the latch is cleared, PC and the status byte are pushed and PC is loaded
  from $FFFA/$FFFB. Otherwise nothing happens; in particular no IRQ is serviced while I
  is set. Neither service charges cycles: \<^verbatim>\<open>result_cycle\<close> keeps its value and the
  devices see only the two reads of the vector.
\<close>

theorem interrupts_after_instruction:
  "run_loop E (Suc n) s0 =
     (let s1 = fetch_execute E s0
      in if cpu_done s1 then Some s1 else run_loop E n (service_interrupts E s1)) \<and>
   (IRQ s \<and> P s AND I_FLAG = 0 \<longrightarrow>
      service_interrupts E s =
        s\<lparr>memory := (memory s)
              (0x100 + unat (SP s) := ucast (drop_bit 8 (PC s)),
               0x100 + unat (SP s - 1) := ucast (PC s AND 0xff),
               0x100 + unat (SP s - 2) := ProcStatus E (push2 (PC s) s)),
          SP := SP s - 3,
          P := P s OR I_FLAG,
          world := snd (read_prg E 0xffff (snd (read_prg E 0xfffe (world s)))),
          PC := ucast (fst (read_prg E 0xfffe (world s))) OR
                push_bit 8 (ucast (fst (read_prg E 0xffff (snd (read_prg E 0xfffe (world s))))))\<rparr> \<and>
      do_NMI (service_interrupts E s) = do_NMI s \<and>
      result_cycle (service_interrupts E s) = result_cycle s) \<and>
   (\<not> (IRQ s \<and> P s AND I_FLAG = 0) \<and> do_NMI s \<longrightarrow>
      \<not> do_NMI (service_interrupts E s) \<and>
      memory (service_interrupts E s) = (memory s)
              (0x100 + unat (SP s) := ucast (drop_bit 8 (PC s)),
               0x100 + unat (SP s - 1) := ucast (PC s AND 0xff),
               0x100 + unat (SP s - 2) := ProcStatus E (push2 (PC s) (s\<lparr>do_NMI := False\<rparr>))) \<and>
      SP (service_interrupts E s) = SP s - 3 \<and>
      PC (service_interrupts E s) =
         ucast (fst (read_prg E 0xfffa (world s))) OR
         push_bit 8 (ucast (fst (read_prg E 0xfffb (snd (read_prg E 0xfffa (world s)))))) \<and>
      world (service_interrupts E s) = snd (read_prg E 0xfffb (snd (read_prg E 0xfffa (world s)))) \<and>
      IRQ (service_interrupts E s) = IRQ s \<and>
      result_cycle (service_interrupts E s) = result_cycle s) \<and>
   (\<not> (IRQ s \<and> P s AND I_FLAG = 0) \<and> \<not> do_NMI s \<longrightarrow> service_interrupts E s = s)"
  (is "?loop \<and> (?irq \<longrightarrow> ?irq_done) \<and> (?nmi \<longrightarrow> ?nmi_done) \<and> (?none \<longrightarrow> ?none_done)")
proof -
  have loop: ?loop by simp
  have irq: "?irq_done" if ?irq using that by (simp add: service_irq)
  have nmi: "?nmi_done" if ?nmi using that by (simp add: service_nmi)
  have none: "?none_done" if ?none using that by (rule service_none)
  show ?thesis using loop irq nmi none by blast
qed

theorem interrupts_after_instruction_witness:
  "PC (service_interrupts bench_env (bench_cpu\<lparr>IRQ := True\<rparr>)) = 0xfffe \<and>
   P (service_interrupts bench_env (bench_cpu\<lparr>IRQ := True\<rparr>)) = 0x04 \<and>
   SP (service_interrupts bench_env (bench_cpu\<lparr>IRQ := True\<rparr>)) = 0xfa \<and>
   PC (service_interrupts bench_env (bench_cpu\<lparr>do_NMI := True\<rparr>)) = 0xfbfa \<and>
   SP (service_interrupts bench_env (bench_cpu\<lparr>do_NMI := True\<rparr>)) = 0xfa \<and>
   memory (service_interrupts bench_env (bench_cpu\<lparr>do_NMI := True\<rparr>)) 0x1fd = 0x80 \<and>
   memory (service_interrupts bench_env (bench_cpu\<lparr>do_NMI := True\<rparr>)) 0x1fc = 0xf0 \<and>
   do_NMI (service_interrupts bench_env (bench_cpu\<lparr>do_NMI := True\<rparr>)) = False \<and>
   service_interrupts bench_env (bench_cpu\<lparr>IRQ := True, P := 0x04\<rparr>) =
     bench_cpu\<lparr>IRQ := True, P := 0x04\<rparr> \<and>
   service_interrupts bench_env bench_cpu = bench_cpu"
  using interrupts_after_instruction [of bench_env 0 bench_cpu "bench_cpu\<lparr>IRQ := True\<rparr>"]
    interrupts_after_instruction [of bench_env 0 bench_cpu "bench_cpu\<lparr>do_NMI := True\<rparr>"]
    interrupts_after_instruction [of bench_env 0 bench_cpu "bench_cpu\<lparr>IRQ := True, P := 0x04\<rparr>"]
    interrupts_after_instruction [of bench_env 0 bench_cpu bench_cpu]
  by (simp add: bench_cpu_def bench_env_def I_FLAG_def)

text \<open>
  The claim as written fails. On the test bench, with an IRQ held, I clear and an NMI
  latched, the loop takes the IRQ vector ($FFFE holds 0xFE and $FFFF holds 0xFF), not
  the NMI vector 0xFBFA, and leaves the NMI latched, so the NMI has no priority. With only the NMI latched it takes
  the NMI vector 0xFBFA and charges nothing: \<^verbatim>\<open>result_cycle\<close> stays 0 and the bus is
  not ticked.
\<close>

theorem interrupt_priority_counterexample:
  "IRQ (bench_cpu\<lparr>IRQ := True, do_NMI := True\<rparr>) \<and>
   do_NMI (bench_cpu\<lparr>IRQ := True, do_NMI := True\<rparr>) \<and>
   P (bench_cpu\<lparr>IRQ := True, do_NMI := True\<rparr>) AND I_FLAG = 0 \<and>
   PC (service_interrupts bench_env (bench_cpu\<lparr>IRQ := True, do_NMI := True\<rparr>)) = 0xfffe \<and>
   fst (read_vector bench_env 0xfffa 0xfffb (bench_cpu\<lparr>IRQ := True, do_NMI := True\<rparr>)) = 0xfbfa \<and>
   do_NMI (service_interrupts bench_env (bench_cpu\<lparr>IRQ := True, do_NMI := True\<rparr>)) \<and>
   PC (service_interrupts bench_env (bench_cpu\<lparr>do_NMI := True\<rparr>)) = 0xfbfa \<and>
   result_cycle (service_interrupts bench_env (bench_cpu\<lparr>do_NMI := True\<rparr>)) = 0 \<and>
   ticks (world (service_interrupts bench_env (bench_cpu\<lparr>do_NMI := True\<rparr>))) = 0"
  by (simp add: service_irq service_nmi read_vector_rom bench_cpu_def I_FLAG_def)
    (simp add: bench_env_def)

subsection \<open>The tick loop\<close>

lemma read_frame_fields:
  "do_NMI (snd (read E a s)) = do_NMI s"
  "cpu_done (snd (read E a s)) = cpu_done s"
  by (subst read_frame, simp)+

lemma apply_calls_latches:
  "do_NMI (fold apply_call cs s) = (do_NMI s \<or> Pull_NMI \<in> set cs) \<and>
   cpu_done (fold apply_call cs s) = (cpu_done s \<or> Stop \<in> set cs) \<and>
   world (fold apply_call cs s) = world s \<and>
   last_op (fold apply_call cs s) = last_op s \<and>
   result_cycle (fold apply_call cs s) = result_cycle s"
proof (induction cs arbitrary: s)
  case Nil
  then show ?case by simp
next
  case (Cons c cs)
  then show ?case
    by (cases c) (auto simp add: pull_NMI_def pull_IRQ_def release_IRQ_def stop_def)
qed

lemma bus_tick_latches:
  "do_NMI (bus_tick E s) = (do_NMI s \<or> Pull_NMI \<in> set (fst (on_cpu_tick E (world s))))"
  "cpu_done (bus_tick E s) = (cpu_done s \<or> Stop \<in> set (fst (on_cpu_tick E (world s))))"
  "world (bus_tick E s) = snd (on_cpu_tick E (world s))"
  "last_op (bus_tick E s) = last_op s"
  "result_cycle (bus_tick E s) = result_cycle s"
  by (simp_all add: bus_tick_def Let_def apply_calls_latches)

lemma tick_bound_bus_tick: "tick_bound (bus_tick E s) = tick_bound s"
  by (simp add: tick_bound_def bus_tick_latches)

lemma tick_loop_funpow: "tick_loop E i s = (bus_tick E ^^ (tick_bound s - i)) s"
proof (induction E i s rule: tick_loop.induct)
  case (1 E i s)
  show ?case
  proof (cases "i < tick_bound s")
    case True
    then have n: "tick_bound s - i = Suc (tick_bound s - (i + 1))" by simp
    have "tick_loop E i s = tick_loop E (i + 1) (bus_tick E s)"
      using True by (subst tick_loop.simps) simp
    also have "\<dots> = (bus_tick E ^^ (tick_bound s - (i + 1))) (bus_tick E s)"
      using "1.IH" [OF True] by (simp add: tick_bound_bus_tick)
    also have "\<dots> = (bus_tick E ^^ (tick_bound s - i)) s"
      by (simp only: n funpow_Suc_right o_apply)
    finally show ?thesis .
  next
    case False
    then show ?thesis by (subst tick_loop.simps) simp
  qed
qed

lemma ticks_latches:
  "do_NMI ((bus_tick E ^^ n) s) = (do_NMI s \<or> Pull_NMI \<in> set (tick_calls E n (world s))) \<and>
   cpu_done ((bus_tick E ^^ n) s) = (cpu_done s \<or> Stop \<in> set (tick_calls E n (world s)))"
proof (induction n arbitrary: s)
  case 0
  then show ?case by simp
next
  case (Suc n)
  have "(bus_tick E ^^ Suc n) s = (bus_tick E ^^ n) (bus_tick E s)"
    by (simp only: funpow_Suc_right o_apply)
  then show ?case
    by (simp only: Suc.IH) (auto simp add: bus_tick_latches)
qed

text \<open>
  One iteration ticks the bus \<^verbatim>\<open>cycles[last_op] + result_cycle\<close> times, both read when
  the handler has returned, and then clears \<^verbatim>\<open>result_cycle\<close>.
\<close>

lemma fetch_execute_ticks:
  "fetch_execute E s =
     ((bus_tick E ^^ (unat (cycles ! unat (last_op (dispatch E s))) + result_cycle (dispatch E s)))
        (dispatch E s))\<lparr>result_cycle := 0\<rparr>"
  by (simp add: fetch_execute_def Let_def tick_loop_funpow tick_bound_def)

subsection \<open>The NMI latch\<close>

lemma fetch_execute_latches:
  "do_NMI (fetch_execute E s) =
     (do_NMI (dispatch E s) \<or>
      Pull_NMI \<in> set (tick_calls E (tick_bound (dispatch E s)) (world (dispatch E s))))"
  "cpu_done (fetch_execute E s) =
     (cpu_done (dispatch E s) \<or>
      Stop \<in> set (tick_calls E (tick_bound (dispatch E s)) (world (dispatch E s))))"
  by (simp_all add: fetch_execute_def Let_def tick_loop_funpow ticks_latches)

lemma fetch_execute_pulled:
  "\<not> do_NMI s \<Longrightarrow> do_NMI (fetch_execute E s) = NMI_pulled E s"
  by (simp add: fetch_execute_latches NMI_pulled_def)

lemma service_interrupts_do_NMI: "do_NMI (service_interrupts E s) \<Longrightarrow> do_NMI s"
  by (cases "IRQ s \<and> P s AND I_FLAG = 0"; cases "do_NMI s")
    (simp_all add: service_irq service_nmi service_none)

lemma quiet_boundary:
  "\<not> do_NMI s \<Longrightarrow> quiet E n s \<Longrightarrow> boundary E n s = Some t \<Longrightarrow> \<not> do_NMI t"
proof (induction n arbitrary: s)
  case 0
  then show ?case
    by (auto simp add: Let_def fetch_execute_pulled split: if_splits)
next
  case (Suc n)
  let ?s1 = "fetch_execute E s"
  from Suc.prems have later: "boundary E n (service_interrupts E ?s1) = Some t"
    and still: "quiet E n (service_interrupts E ?s1)" and now: "\<not> NMI_pulled E s"
    by (auto simp add: Let_def split: if_splits)
  have "\<not> do_NMI ?s1" using Suc.prems(1) now by (simp add: fetch_execute_pulled)
  then have "\<not> do_NMI (service_interrupts E ?s1)" using service_interrupts_do_NMI by blast
  then show ?case using still later by (rule Suc.IH)
qed

text \<open>
  C8. When the loop services a latched NMI it clears the latch. In the iterations that
  follow, as long as \<^verbatim>\<open>pull_NMI\<close> is not called again, every interrupt test finds the
  latch clear and leaves it clear, so the pulse is serviced once. From a clear latch, the
  next interrupt test finds the latch set exactly when \<^verbatim>\<open>pull_NMI\<close> was called during
  the iteration, by the handler or by a bus tick. Interrupt service never sets the latch,
  and \<^verbatim>\<open>pull_NMI\<close> sets it.
\<close>

theorem nmi_consumed_once:
  "(\<not> (IRQ s \<and> P s AND I_FLAG = 0) \<and> do_NMI s \<longrightarrow>
      \<not> do_NMI (service_interrupts E s) \<and>
      (\<forall>n t. quiet E n (service_interrupts E s) \<and>
             boundary E n (service_interrupts E s) = Some t \<longrightarrow>
             \<not> do_NMI t \<and> \<not> do_NMI (service_interrupts E t))) \<and>
   (\<not> do_NMI u \<longrightarrow> do_NMI (fetch_execute E u) = NMI_pulled E u) \<and>
   (do_NMI (service_interrupts E u) \<longrightarrow> do_NMI u) \<and>
   do_NMI (fetch_execute E u) =
     (do_NMI (dispatch E u) \<or>
      Pull_NMI \<in> set (tick_calls E (tick_bound (dispatch E u)) (world (dispatch E u)))) \<and>
   do_NMI (pull_NMI u)"
proof -
  have cleared: "\<not> do_NMI (service_interrupts E s)"
    if "\<not> (IRQ s \<and> P s AND I_FLAG = 0) \<and> do_NMI s"
    using that by (simp add: service_nmi)
  have later: "\<not> do_NMI t \<and> \<not> do_NMI (service_interrupts E t)"
    if "\<not> (IRQ s \<and> P s AND I_FLAG = 0) \<and> do_NMI s"
      and "quiet E n (service_interrupts E s)"
      and "boundary E n (service_interrupts E s) = Some t" for n t
    using quiet_boundary [OF cleared [OF that(1)] that(2,3)] service_interrupts_do_NMI [of E t]
    by blast
  have pulled: "do_NMI (fetch_execute E u) = NMI_pulled E u" if "\<not> do_NMI u"
    using that by (rule fetch_execute_pulled)
  show ?thesis
    using cleared later pulled service_interrupts_do_NMI [of E u] fetch_execute_latches(1) [of E u]
    by (simp add: pull_NMI_def) blast
qed

text \<open>
  A run on the bench whose bus raises the NMI line at its second tick: the latch is
  clear at the start, set at the first interrupt test, cleared by the service, and
  clear at the interrupt tests that follow.
\<close>

lemma pulse_fields:
  "ops pulse_env = ops bench_env" "read_prg pulse_env = read_prg bench_env"
  "on_cpu_tick pulse_env w =
     (if ticks w = 1 then [Pull_NMI] else [], w\<lparr>ticks := Suc (ticks w)\<rparr>)"
  by (simp_all add: pulse_env_def)

lemma pulse_read_world: "world (snd (read pulse_env a s)) = world s"
  by (simp add: read_def dev_get_def pulse_env_def bench_env_def)

lemma pulse_dispatch:
  "world (dispatch pulse_env s) = world s"
  "do_NMI (dispatch pulse_env s) = do_NMI s"
  "cpu_done (dispatch pulse_env s) = cpu_done s"
  by (simp_all add: dispatch_def Let_def next'_def pulse_fields pulse_read_world read_frame_fields)
    (simp_all add: bench_env_def addcyc_def pulse_read_world read_frame_fields)

lemma pulse_tick_calls:
  "2 \<le> ticks w \<Longrightarrow> tick_calls pulse_env n w = []"
  by (induction n arbitrary: w) (simp_all add: pulse_fields)

lemma pulse_no_stop: "Stop \<notin> set (tick_calls pulse_env n w)"
  by (induction n arbitrary: w) (simp_all add: pulse_fields)

lemma pulse_ticks_world:
  "ticks (world ((bus_tick pulse_env ^^ n) s)) = ticks (world s) + n"
proof (induction n arbitrary: s)
  case 0
  then show ?case by simp
next
  case (Suc n)
  have "(bus_tick pulse_env ^^ Suc n) s = (bus_tick pulse_env ^^ n) (bus_tick pulse_env s)"
    by (simp only: funpow_Suc_right o_apply)
  then show ?case by (simp add: Suc.IH bus_tick_latches pulse_fields)
qed

lemma pulse_fetch_execute:
  "ticks (world s) \<le> ticks (world (fetch_execute pulse_env s))"
  "cpu_done (fetch_execute pulse_env s) = cpu_done s"
proof -
  show "ticks (world s) \<le> ticks (world (fetch_execute pulse_env s))"
    by (simp add: fetch_execute_ticks pulse_ticks_world pulse_dispatch)
  show "cpu_done (fetch_execute pulse_env s) = cpu_done s"
    by (simp add: fetch_execute_latches pulse_no_stop pulse_dispatch)
qed

lemma service_interrupts_running: "cpu_done (service_interrupts E s) = cpu_done s"
  by (cases "IRQ s \<and> P s AND I_FLAG = 0"; cases "do_NMI s")
    (simp_all add: service_irq service_nmi service_none)

lemma pulse_service_world: "world (service_interrupts pulse_env s) = world s"
  by (cases "IRQ s \<and> P s AND I_FLAG = 0"; cases "do_NMI s")
    (simp_all add: service_irq service_nmi service_none pulse_fields, simp_all add: bench_env_def)

lemma pulse_quiet: "2 \<le> ticks (world s) \<Longrightarrow> quiet pulse_env n s"
proof (induction n arbitrary: s)
  case 0
  then show ?case by (simp add: NMI_pulled_def pulse_dispatch pulse_tick_calls)
next
  case (Suc n)
  have "2 \<le> ticks (world (service_interrupts pulse_env (fetch_execute pulse_env s)))"
    using Suc.prems pulse_fetch_execute(1) [of s] by (simp add: pulse_service_world)
  then have "quiet pulse_env n (service_interrupts pulse_env (fetch_execute pulse_env s))"
    by (rule Suc.IH)
  then show ?case using Suc.prems by (simp add: NMI_pulled_def pulse_dispatch pulse_tick_calls)
qed

lemma pulse_boundary: "\<not> cpu_done s \<Longrightarrow> boundary pulse_env n s \<noteq> None"
  by (induction n arbitrary: s)
    (simp_all add: Let_def pulse_fetch_execute service_interrupts_running)

lemma funpow_4: "(f ^^ 4) x = f (f (f (f x)))"
  by (simp add: eval_nat_numeral)

lemma pulse_first_iteration:
  "fetch_execute pulse_env bench_cpu =
     bench_cpu\<lparr>last_PC := 0x80f0, PC := 0x80f1, last_op := 0xf0, do_NMI := True,
       world := (world bench_cpu)\<lparr>ticks := 4\<rparr>\<rparr>"
proof -
  have d: "dispatch pulse_env bench_cpu =
      bench_cpu\<lparr>last_PC := 0x80f0, PC := 0x80f1, last_op := 0xf0, result_cycle := 2\<rparr>"
    by (simp add: dispatch_def Let_def next'_def read_def dev_get_def pulse_env_def bench_env_def
        bench_cpu_def addcyc_def)
  have c: "cycles ! 240 = 2" by (simp add: cycles_def)
  show ?thesis
    by (simp add: fetch_execute_ticks d c funpow_4)
      (simp add: bus_tick_def pulse_fields bench_cpu_def pull_NMI_def)
qed

theorem nmi_consumed_once_witness:
  "\<not> do_NMI bench_cpu \<and>
   NMI_pulled pulse_env bench_cpu \<and>
   do_NMI (fetch_execute pulse_env bench_cpu) \<and>
   \<not> do_NMI (service_interrupts pulse_env (fetch_execute pulse_env bench_cpu)) \<and>
   PC (service_interrupts pulse_env (fetch_execute pulse_env bench_cpu)) = 0xfbfa \<and>
   quiet pulse_env 3 (service_interrupts pulse_env (fetch_execute pulse_env bench_cpu)) \<and>
   (\<exists>t. boundary pulse_env 3 (service_interrupts pulse_env (fetch_execute pulse_env bench_cpu)) = Some t \<and>
        \<not> do_NMI t \<and> \<not> do_NMI (service_interrupts pulse_env t))"
proof -
  let ?s = "fetch_execute pulse_env bench_cpu"
  let ?s1 = "service_interrupts pulse_env ?s"
  have clear: "\<not> do_NMI bench_cpu" by (simp add: bench_cpu_def)
  have latched: "\<not> (IRQ ?s \<and> P ?s AND I_FLAG = 0) \<and> do_NMI ?s"
    by (simp add: pulse_first_iteration) (simp add: bench_cpu_def)
  have vector: "PC ?s1 = 0xfbfa"
    using latched by (simp add: service_nmi pulse_fields) (simp add: bench_env_def)
  have "ticks (world ?s1) = 4"
    by (simp add: pulse_service_world pulse_first_iteration)
  then have q: "quiet pulse_env 3 ?s1" by (simp add: pulse_quiet)
  have "\<not> cpu_done ?s1"
    by (simp add: service_interrupts_running pulse_fetch_execute) (simp add: bench_cpu_def)
  then obtain t where t: "boundary pulse_env 3 ?s1 = Some t"
    using pulse_boundary [of ?s1 3] by blast
  show ?thesis
    using nmi_consumed_once [of ?s pulse_env bench_cpu] clear latched vector q t
    by blast
qed

end
